theory Spec2Isabelle
  imports Main
begin

section \<open>Syntax trees and type information consumed by the analyzer\<close>

text \<open>
  The analyzer of \<^verbatim>\<open>varfmt/varfmt.go\<close> works on Go syntax trees (\<^verbatim>\<open>go/ast\<close>) and on the
  type checker's tables (\<^verbatim>\<open>go/types\<close>). Nodes are pointers in Go, and the culprit map
  \<^verbatim>\<open>bad\<close> is keyed by node identity. Here a node is its value: leaves carry their source
  position, so that two occurrences of the same text are two different values.
\<close>

datatype ident = IdentOf nat string
  \<comment> \<open>\<^verbatim>\<open>*ast.Ident\<close>: position and name\<close>

datatype expr =
    BasicLit nat string
  | Ident ident
  | BinaryExpr expr string expr
  | KeyValueExpr expr expr
  | ParenExpr expr
  | SliceExpr expr "expr option" "expr option" "expr option"
  | StarExpr expr
  | TypeAssertExpr expr
  | UnaryExpr string expr
  | SelectorExpr expr ident
  | CallExpr expr "expr list"
  | IndexExpr expr expr
  | OtherExpr string nat "expr list"
  \<comment> \<open>\<^verbatim>\<open>OtherExpr\<close>: every other kind of \<^verbatim>\<open>ast.Expr\<close> (function literals, composite
      literals, type expressions, ...), with the kind's name, a position and the
      expressions directly inside it\<close>

datatype object =
    Var nat
  | Const nat
  | Func nat nat
  | TypeName nat
  | OtherObj nat
  \<comment> \<open>\<^verbatim>\<open>types.Object\<close> by dynamic type; the first number is the object's identity (its
      declaration), the second one of \<^verbatim>\<open>Func\<close> is \<^verbatim>\<open>Type().(*types.Signature).Params().Len()\<close>;
      \<^verbatim>\<open>OtherObj\<close> stands for package names, builtins, labels and nil\<close>

datatype selection = Selection "object option"
  \<comment> \<open>\<^verbatim>\<open>*types.Selection\<close> with its field \<^verbatim>\<open>obj\<close>\<close>

record types_info =
  ObjectOf :: "ident \<Rightarrow> object option"
  Selections :: "expr \<Rightarrow> selection option"

datatype printf_kind = KindNone | KindPrintf | KindPrint | KindErrorf

datatype error = NilDereference | IndexOutOfRange
  \<comment> \<open>the two run-time panics the code can raise\<close>

section \<open>Helpers of the provenance engine\<close>

fun constobj :: "object option \<Rightarrow> bool" where
  "constobj (Some (Const c)) = True"
| "constobj _ = False"

fun typeobj :: "object option \<Rightarrow> bool" where
  "typeobj (Some (TypeName t)) = True"
| "typeobj _ = False"

text \<open>
  \<^verbatim>\<open>selobj\<close>: the object of the selected name if the checker recorded one, else the object
  of the recorded selection. \<^verbatim>\<open>ti.Selections[x]\<close> is a nil pointer when the map has no
  entry, and \<^verbatim>\<open>sel.Obj()\<close> reads a field of its receiver.
\<close>

definition selobj :: "types_info \<Rightarrow> expr \<Rightarrow> ident \<Rightarrow> error + object option" where
  "selobj ti x sel =
     (case ObjectOf ti sel of
        Some obj \<Rightarrow> Inr (Some obj)
      | None \<Rightarrow>
          (case Selections ti (SelectorExpr x sel) of
             None \<Rightarrow> Inl NilDereference
           | Some (Selection obj) \<Rightarrow> Inr obj))"

fun typeexpr :: "types_info \<Rightarrow> expr \<Rightarrow> bool" where
  "typeexpr ti (SelectorExpr x sel) = typeobj (ObjectOf ti sel)"
| "typeexpr ti (Ident idn) = typeobj (ObjectOf ti idn)"
| "typeexpr ti _ = False"

fun fmtarg :: "(object \<Rightarrow> printf_kind) \<Rightarrow> object option \<Rightarrow> int" where
  "fmtarg printers (Some (Func f n)) =
     (case printers (Func f n) of
        KindPrintf \<Rightarrow> int n - 2
      | KindErrorf \<Rightarrow> int n - 2
      | _ \<Rightarrow> - 1)"
| "fmtarg printers _ = - 1"

section \<open>The provenance engine: \<^verbatim>\<open>constlit\<close> and \<^verbatim>\<open>combine\<close>\<close>

text \<open>
  \<^verbatim>\<open>constlit\<close> returns its verdict together with the updated culprit map, or the panic
  that stopped it. \<^verbatim>\<open>combine_loop\<close> is the first loop of \<^verbatim>\<open>combine\<close>, carrying
  \<^verbatim>\<open>allgood\<close>, \<^verbatim>\<open>allbad\<close> and the map. The trace lines that \<^verbatim>\<open>pt\<close> prints are not part of
  the result.
\<close>

function (sequential)
  constlit :: "types_info \<Rightarrow> expr \<Rightarrow> expr set \<Rightarrow> error + (bool \<times> expr set)" and
  combine :: "types_info \<Rightarrow> expr \<Rightarrow> expr set \<Rightarrow> expr list \<Rightarrow> error + (bool \<times> expr set)" and
  combine_loop :: "types_info \<Rightarrow> expr list \<Rightarrow> bool \<times> bool \<times> expr set
                     \<Rightarrow> error + (bool \<times> bool \<times> expr set)"
where
  "constlit ti (BinaryExpr x opr y) bad = combine ti (BinaryExpr x opr y) bad [x, y]"
| "constlit ti (KeyValueExpr k v) bad = combine ti (KeyValueExpr k v) bad [k, v]"
| "constlit ti (ParenExpr x) bad = combine ti (ParenExpr x) bad [x]"
| "constlit ti (SliceExpr x lo hi mx) bad =
     combine ti (SliceExpr x lo hi mx) bad
       (x # (case lo of None \<Rightarrow> [] | Some l \<Rightarrow> [l])
          @ (case hi of None \<Rightarrow> [] | Some h \<Rightarrow> [h])
          @ (case mx of None \<Rightarrow> [] | Some m \<Rightarrow> [m]))"
| "constlit ti (StarExpr x) bad = combine ti (StarExpr x) bad [x]"
| "constlit ti (TypeAssertExpr x) bad = combine ti (TypeAssertExpr x) bad [x]"
| "constlit ti (UnaryExpr opr x) bad = combine ti (UnaryExpr opr x) bad [x]"
| "constlit ti (SelectorExpr x sel) bad =
     (case selobj ti x sel of
        Inl e \<Rightarrow> Inl e
      | Inr obj \<Rightarrow>
          if obj \<noteq> None \<and> constobj obj then Inr (True, bad)
          else Inr (False, insert (SelectorExpr x sel) bad))"
| "constlit ti (BasicLit p v) bad = Inr (True, bad)"
| "constlit ti (Ident idn) bad =
     (if constobj (ObjectOf ti idn) then Inr (True, bad)
      else Inr (False, insert (Ident idn) bad))"
| "constlit ti (CallExpr f args) bad =
     (if length args = 1 \<and> typeexpr ti f then
        (case constlit ti (args ! 0) bad of
           Inl e \<Rightarrow> Inl e
         | Inr (True, bad') \<Rightarrow> Inr (True, bad')
         | Inr (False, bad') \<Rightarrow> Inr (False, insert (CallExpr f args) bad'))
      else Inr (False, insert (CallExpr f args) bad))"
| "constlit ti (IndexExpr x i) bad = Inr (False, insert (IndexExpr x i) bad)"
| "constlit ti (OtherExpr k p xs) bad = Inr (False, insert (OtherExpr k p xs) bad)"
| "combine ti parent bad xs =
     (case combine_loop ti xs (True, True, bad) of
        Inl e \<Rightarrow> Inl e
      | Inr (allgood, allbad, bad') \<Rightarrow>
          Inr (allgood, if allbad then insert parent (bad' - set xs) else bad'))"
| "combine_loop ti [] st = Inr st"
| "combine_loop ti (x # xs) (allgood, allbad, bad) =
     (case constlit ti x bad of
        Inl e \<Rightarrow> Inl e
      | Inr (True, bad') \<Rightarrow> combine_loop ti xs (allgood, False, bad')
      | Inr (False, bad') \<Rightarrow> combine_loop ti xs (False, allbad, bad'))"
  by pat_completeness auto

termination
  by (relation "measures
    [\<lambda>a. case a of
        Inl (ti, e, bad) \<Rightarrow> size e
      | Inr (Inl (ti, parent, bad, xs)) \<Rightarrow> sum_list (map size xs)
      | Inr (Inr (ti, xs, st)) \<Rightarrow> sum_list (map size xs),
     \<lambda>a. case a of
        Inl (ti, e, bad) \<Rightarrow> 0
      | Inr (Inl (ti, parent, bad, xs)) \<Rightarrow> length xs + 2
      | Inr (Inr (ti, xs, st)) \<Rightarrow> length xs + 1]")
    (auto split: option.splits simp: length_Suc_conv)

section \<open>The traversal driver: \<^verbatim>\<open>varfmtAnalyzer.run\<close>\<close>

datatype field = Field "ident list"
  \<comment> \<open>\<^verbatim>\<open>*ast.Field\<close> with its \<^verbatim>\<open>Names\<close>\<close>

fun nthName_names :: "ident list \<Rightarrow> int \<Rightarrow> int \<Rightarrow> ident + int" where
  "nthName_names [] i nth0 = Inr i"
| "nthName_names (n # ns) i nth0 = (if i = nth0 then Inl n else nthName_names ns (i + 1) nth0)"

fun nthName_fields :: "field list \<Rightarrow> int \<Rightarrow> int \<Rightarrow> ident option" where
  "nthName_fields [] i nth0 = None"
| "nthName_fields (Field names # flds) i nth0 =
     (case nthName_names names i nth0 of
        Inl n \<Rightarrow> Some n
      | Inr i' \<Rightarrow> nthName_fields flds i' nth0)"

definition nthName :: "field list \<Rightarrow> int \<Rightarrow> ident option" where
  "nthName flds nth0 = nthName_fields flds 0 nth0"

datatype position = NodePos expr | ObjectPos object
  \<comment> \<open>the source span of a node (\<^verbatim>\<open>x.Pos()\<close>, \<^verbatim>\<open>x.End()\<close>) or the position of an object's
      declaration (\<^verbatim>\<open>obj.Pos()\<close>)\<close>

datatype related_information = RelatedInformation position string

text \<open>
  The related notes of a general expression are appended while ranging over the map
  \<^verbatim>\<open>bad\<close>, in an order Go leaves unspecified: the field is a set here.
\<close>

record diagnostic =
  Pos :: position
  Message :: string
  Related :: "related_information set"

record pass =
  TypesInfo :: types_info
  printers :: "object \<Rightarrow> printf_kind"
  pp :: "expr \<Rightarrow> string"

record varfmtAnalyzer =
  SuppressNoArgs :: bool

text \<open>
  The nodes the inspector hands to the callback, by the filter
  \<^verbatim>\<open>CallExpr, FuncDecl, AssignStmt\<close>: a function declaration with its name and
  \<^verbatim>\<open>Type.Params.List\<close>, an assignment with its \<^verbatim>\<open>Lhs\<close>, a call with \<^verbatim>\<open>Fun\<close> and \<^verbatim>\<open>Args\<close>.
\<close>

datatype node =
    FuncDeclN ident "field list"
  | AssignStmtN "expr list"
  | CallExprN expr "expr list"

fun invalidate :: "types_info \<Rightarrow> expr list \<Rightarrow> object set \<Rightarrow> object set" where
  "invalidate ti [] passthru = passthru"
| "invalidate ti (Ident idn # lhs) passthru =
     invalidate ti lhs
       (case ObjectOf ti idn of None \<Rightarrow> passthru | Some obj \<Rightarrow> passthru - {obj})"
| "invalidate ti (lh # lhs) passthru = invalidate ti lhs passthru"

text \<open>The switch on \<^verbatim>\<open>n.Fun\<close> that sets \<^verbatim>\<open>checkarg\<close>; every other kind leaves it at -1.\<close>

fun callfun_checkarg :: "pass \<Rightarrow> expr \<Rightarrow> error + int" where
  "callfun_checkarg ps (Ident callfun) =
     Inr (fmtarg (printers ps) (ObjectOf (TypesInfo ps) callfun))"
| "callfun_checkarg ps (SelectorExpr x sel) =
     (case selobj (TypesInfo ps) x sel of
        Inl e \<Rightarrow> Inl e
      | Inr obj \<Rightarrow> Inr (fmtarg (printers ps) obj))"
| "callfun_checkarg ps _ = Inr (- 1)"

definition culprit_msg :: "pass \<Rightarrow> expr set \<Rightarrow> string" where
  "culprit_msg ps bad =
     (if card bad = 1 \<and> length (pp ps (the_elem bad)) < 32
      then ''variable `'' @ pp ps (the_elem bad) @ ''`''
      else ''non-constant expression'')"

text \<open>
  The check of the format argument of a call, from \<^verbatim>\<open>switch arg := n.Args[checkarg]\<close> on.
  \<^verbatim>\<open>pt\<close> takes the type of its argument by reflection and panics on the nil object of
  an unresolved identifier.
\<close>

fun checkformat ::
  "pass \<Rightarrow> expr \<Rightarrow> expr \<Rightarrow> object set \<Rightarrow> error + diagnostic list" where
  "checkformat ps callfun (Ident arg) passthru =
     (case ObjectOf (TypesInfo ps) arg of
        Some (Var v) \<Rightarrow>
          if Var v \<notin> passthru then
            Inr [\<lparr>Pos = NodePos (Ident arg),
                  Message = ''variable `'' @ pp ps (Ident arg) @ ''` used for ''
                            @ pp ps callfun @ '' format parameter'',
                  Related = {RelatedInformation (ObjectPos (Var v)) ''defined here''}\<rparr>]
          else Inr []
      | Some (Const c) \<Rightarrow> Inr []
      | Some obj \<Rightarrow> Inr []
      | None \<Rightarrow> Inl NilDereference)"
| "checkformat ps callfun arg passthru =
     (case constlit (TypesInfo ps) arg {} of
        Inl e \<Rightarrow> Inl e
      | Inr (True, bad) \<Rightarrow> Inr []
      | Inr (False, bad) \<Rightarrow>
          Inr [\<lparr>Pos = NodePos arg,
                Message = culprit_msg ps bad @ '' used for '' @ pp ps callfun
                          @ '' format parameter'',
                Related = (\<lambda>x. RelatedInformation (NodePos x) (''Non-constant: '' @ pp ps x))
                            ` bad\<rparr>])"

text \<open>
  One call of the callback given to \<^verbatim>\<open>inspect.Preorder\<close>, on the registry \<^verbatim>\<open>passthru\<close> and
  the diagnostics reported so far.
\<close>

fun visit ::
  "varfmtAnalyzer \<Rightarrow> pass \<Rightarrow> node \<Rightarrow> object set \<times> diagnostic list
     \<Rightarrow> error + (object set \<times> diagnostic list)" where
  "visit v ps (FuncDeclN name params) (passthru, reports) =
     (case ObjectOf (TypesInfo ps) name of
        None \<Rightarrow> Inr (passthru, reports)
      | Some obj \<Rightarrow>
          let i = fmtarg (printers ps) (Some obj) in
          if i \<ge> 0 then
            (case nthName params i of
               None \<Rightarrow> Inr (passthru, reports)
             | Some idn \<Rightarrow>
                 (case ObjectOf (TypesInfo ps) idn of
                    None \<Rightarrow> Inr (passthru, reports)
                  | Some obj' \<Rightarrow> Inr (insert obj' passthru, reports)))
          else Inr (passthru, reports))"
| "visit v ps (AssignStmtN lhs) (passthru, reports) =
     Inr (invalidate (TypesInfo ps) lhs passthru, reports)"
| "visit v ps (CallExprN callfun args) (passthru, reports) =
     (case callfun_checkarg ps callfun of
        Inl e \<Rightarrow> Inl e
      | Inr checkarg \<Rightarrow>
          if checkarg < 0 then Inr (passthru, reports)
          else if SuppressNoArgs v \<and> int (length args) - 1 > checkarg
          then Inr (passthru, reports)
          else if length args \<le> nat checkarg then Inl IndexOutOfRange
          else
            (case checkformat ps callfun (args ! nat checkarg) passthru of
               Inl e \<Rightarrow> Inl e
             | Inr ds \<Rightarrow> Inr (passthru, reports @ ds)))"

fun preorder ::
  "varfmtAnalyzer \<Rightarrow> pass \<Rightarrow> node list \<Rightarrow> object set \<times> diagnostic list
     \<Rightarrow> error + (object set \<times> diagnostic list)" where
  "preorder v ps [] st = Inr st"
| "preorder v ps (n # ns) st =
     (case visit v ps n st of
        Inl e \<Rightarrow> Inl e
      | Inr st' \<Rightarrow> preorder v ps ns st')"

text \<open>
  A run over one package: the registry starts empty, and the result is the list of
  reported diagnostics, or the panic that aborted the pass.
\<close>

definition run :: "varfmtAnalyzer \<Rightarrow> pass \<Rightarrow> node list \<Rightarrow> error + diagnostic list" where
  "run v ps nodes =
     (case preorder v ps nodes ({}, []) of
        Inl e \<Rightarrow> Inl e
      | Inr (passthru, reports) \<Rightarrow> Inr reports)"

section \<open>Notions used by the properties\<close>

text \<open>The immediate operands a composite expression hands to \<^verbatim>\<open>combine\<close>, in order.\<close>

fun operands :: "expr \<Rightarrow> expr list" where
  "operands (BinaryExpr x opr y) = [x, y]"
| "operands (KeyValueExpr k v) = [k, v]"
| "operands (ParenExpr x) = [x]"
| "operands (SliceExpr x lo hi mx) =
     x # (case lo of None \<Rightarrow> [] | Some l \<Rightarrow> [l])
       @ (case hi of None \<Rightarrow> [] | Some h \<Rightarrow> [h])
       @ (case mx of None \<Rightarrow> [] | Some m \<Rightarrow> [m])"
| "operands (StarExpr x) = [x]"
| "operands (TypeAssertExpr x) = [x]"
| "operands (UnaryExpr opr x) = [x]"
| "operands _ = []"

text \<open>
  Expressions built only from literals, references to declared constants (identifiers or
  member accesses) and conversions to a named type of one such expression, put together
  by the composite forms of the combination rule: binary and unary operations,
  parentheses, slices, key-value pairs, dereferences and type assertions. Indexing is not
  among them: an indexing expression is never constant.
\<close>

fun const_only :: "types_info \<Rightarrow> expr \<Rightarrow> bool" where
  "const_only ti (BasicLit p v) = True"
| "const_only ti (Ident idn) = constobj (ObjectOf ti idn)"
| "const_only ti (SelectorExpr x sel) =
     (case selobj ti x sel of Inr (Some obj) \<Rightarrow> constobj (Some obj) | _ \<Rightarrow> False)"
| "const_only ti (CallExpr f [a]) = (typeexpr ti f \<and> const_only ti a)"
| "const_only ti (BinaryExpr x opr y) = (const_only ti x \<and> const_only ti y)"
| "const_only ti (KeyValueExpr k v) = (const_only ti k \<and> const_only ti v)"
| "const_only ti (ParenExpr x) = const_only ti x"
| "const_only ti (SliceExpr x lo hi mx) =
     (const_only ti x
      \<and> (case lo of None \<Rightarrow> True | Some l \<Rightarrow> const_only ti l)
      \<and> (case hi of None \<Rightarrow> True | Some h \<Rightarrow> const_only ti h)
      \<and> (case mx of None \<Rightarrow> True | Some m \<Rightarrow> const_only ti m))"
| "const_only ti (StarExpr x) = const_only ti x"
| "const_only ti (TypeAssertExpr x) = const_only ti x"
| "const_only ti (UnaryExpr opr x) = const_only ti x"
| "const_only ti _ = False"

text \<open>
  The type checker has an entry for every member access of the expression: an object for
  the selected name, or a selection.
\<close>

fun resolved :: "types_info \<Rightarrow> expr \<Rightarrow> bool" where
  "resolved ti (BasicLit p v) = True"
| "resolved ti (Ident idn) = True"
| "resolved ti (BinaryExpr x opr y) = (resolved ti x \<and> resolved ti y)"
| "resolved ti (KeyValueExpr k v) = (resolved ti k \<and> resolved ti v)"
| "resolved ti (ParenExpr x) = resolved ti x"
| "resolved ti (SliceExpr x lo hi mx) =
     (resolved ti x
      \<and> (case lo of None \<Rightarrow> True | Some l \<Rightarrow> resolved ti l)
      \<and> (case hi of None \<Rightarrow> True | Some h \<Rightarrow> resolved ti h)
      \<and> (case mx of None \<Rightarrow> True | Some m \<Rightarrow> resolved ti m))"
| "resolved ti (StarExpr x) = resolved ti x"
| "resolved ti (TypeAssertExpr x) = resolved ti x"
| "resolved ti (UnaryExpr opr x) = resolved ti x"
| "resolved ti (SelectorExpr x sel) =
     ((ObjectOf ti sel \<noteq> None \<or> Selections ti (SelectorExpr x sel) \<noteq> None) \<and> resolved ti x)"
| "resolved ti (CallExpr f args) = (resolved ti f \<and> list_all (resolved ti) args)"
| "resolved ti (IndexExpr x i) = (resolved ti x \<and> resolved ti i)"
| "resolved ti (OtherExpr k p xs) = list_all (resolved ti) xs"

text \<open>
  The expression has a non-constant leaf that is not inside an indexing expression. A
  leaf is a literal, an identifier or a member access taken whole; it is non-constant
  unless it is a literal or refers to a declared constant. Leaves are looked for in the
  operands of the composite forms, in the arguments and in the function position of a
  call, and inside the other kinds of expression. The named type in the function
  position of a conversion is no leaf.
\<close>

fun nonconst_leaf :: "types_info \<Rightarrow> expr \<Rightarrow> bool" where
  "nonconst_leaf ti (BasicLit p v) = False"
| "nonconst_leaf ti (Ident idn) = (\<not> constobj (ObjectOf ti idn))"
| "nonconst_leaf ti (SelectorExpr x sel) =
     (case selobj ti x sel of Inl e \<Rightarrow> True | Inr obj \<Rightarrow> \<not> constobj obj)"
| "nonconst_leaf ti (BinaryExpr x opr y) = (nonconst_leaf ti x \<or> nonconst_leaf ti y)"
| "nonconst_leaf ti (KeyValueExpr k v) = (nonconst_leaf ti k \<or> nonconst_leaf ti v)"
| "nonconst_leaf ti (ParenExpr x) = nonconst_leaf ti x"
| "nonconst_leaf ti (SliceExpr x lo hi mx) =
     (nonconst_leaf ti x
      \<or> (case lo of None \<Rightarrow> False | Some l \<Rightarrow> nonconst_leaf ti l)
      \<or> (case hi of None \<Rightarrow> False | Some h \<Rightarrow> nonconst_leaf ti h)
      \<or> (case mx of None \<Rightarrow> False | Some m \<Rightarrow> nonconst_leaf ti m))"
| "nonconst_leaf ti (StarExpr x) = nonconst_leaf ti x"
| "nonconst_leaf ti (TypeAssertExpr x) = nonconst_leaf ti x"
| "nonconst_leaf ti (UnaryExpr opr x) = nonconst_leaf ti x"
| "nonconst_leaf ti (CallExpr f args) =
     ((\<not> typeexpr ti f \<and> nonconst_leaf ti f) \<or> list_ex (nonconst_leaf ti) args)"
| "nonconst_leaf ti (IndexExpr x i) = False"
| "nonconst_leaf ti (OtherExpr k p xs) = list_ex (nonconst_leaf ti) xs"

text \<open>The node is an assignment with the identifier of object \<open>obj\<close> among its targets.\<close>

fun assigns :: "types_info \<Rightarrow> object \<Rightarrow> node \<Rightarrow> bool" where
  "assigns ti obj (AssignStmtN lhs) =
     list_ex (\<lambda>lh. case lh of Ident idn \<Rightarrow> ObjectOf ti idn = Some obj | _ \<Rightarrow> False) lhs"
| "assigns ti obj _ = False"

fun is_FuncDecl :: "node \<Rightarrow> bool" where
  "is_FuncDecl (FuncDeclN name params) = True"
| "is_FuncDecl _ = False"

text \<open>The diagnostic of the identifier case, for the variable \<open>obj\<close>.\<close>

definition variable_report :: "pass \<Rightarrow> expr \<Rightarrow> ident \<Rightarrow> object \<Rightarrow> diagnostic" where
  "variable_report ps callfun arg obj =
     \<lparr>Pos = NodePos (Ident arg),
      Message = ''variable `'' @ pp ps (Ident arg) @ ''` used for '' @ pp ps callfun
                @ '' format parameter'',
      Related = {RelatedInformation (ObjectPos obj) ''defined here''}\<rparr>"

text \<open>The SuppressNoArgs test of a call with format index \<open>checkarg\<close>.\<close>

definition suppressed :: "varfmtAnalyzer \<Rightarrow> expr list \<Rightarrow> int \<Rightarrow> bool" where
  "suppressed v args checkarg = (SuppressNoArgs v \<and> int (length args) - 1 > checkarg)"

text \<open>The verdict of an evaluation without its culprit map, and the flags of the loop.\<close>

definition verdict :: "error + (bool \<times> 'a) \<Rightarrow> error + bool" where
  "verdict r = (case r of Inl e \<Rightarrow> Inl e | Inr (v, b) \<Rightarrow> Inr v)"

definition flags :: "error + (bool \<times> bool \<times> 'a) \<Rightarrow> error + (bool \<times> bool)" where
  "flags r = (case r of Inl e \<Rightarrow> Inl e | Inr (g, b, m) \<Rightarrow> Inr (g, b))"

text \<open>The declared parameter names of a function, in order.\<close>

definition param_names :: "field list \<Rightarrow> ident list" where
  "param_names flds = concat (map (\<lambda>fld. case fld of Field names \<Rightarrow> names) flds)"

section \<open>A package for the examples\<close>

text \<open>
  The names of the repository's test package \<^verbatim>\<open>a\<close>, resolved by name: variables,
  constants, the type \<^verbatim>\<open>string\<close>, and printf-like functions with their numbers of
  parameters. \<open>render\<close> prints a node the way the source spells it.
\<close>

definition example_objects :: "(string \<times> object) list" where
  "example_objects =
     [(''v1'', Var 1), (''v2'', Var 2), (''v3'', Var 3), (''ar'', Var 4),
      (''lookup'', Var 5), (''format'', Var 6), (''args'', Var 7),
      (''c1'', Const 11), (''c2'', Const 12), (''c3'', Const 13), (''C'', Const 14),
      (''false'', Const 15),
      (''string'', TypeName 21), (''String'', TypeName 22),
      (''Sprintf'', Func 31 2), (''Fprintf'', Func 32 3), (''passthrough'', Func 33 2),
      (''bad'', Func 34 0), (''g'', Func 35 0),
      (''fmt'', OtherObj 41), (''pkg'', OtherObj 42)]"

definition example_info :: types_info where
  "example_info =
     \<lparr>ObjectOf = (\<lambda>idn. case idn of IdentOf p n \<Rightarrow> map_of example_objects n),
      Selections = (\<lambda>x. None)\<rparr>"

fun example_printers :: "object \<Rightarrow> printf_kind" where
  "example_printers (Func f n) = (if f \<in> {31, 32, 33} then KindPrintf else KindNone)"
| "example_printers _ = KindNone"

fun commas :: "string list \<Rightarrow> string" where
  "commas [] = []"
| "commas [s] = s"
| "commas (s # ss) = s @ '', '' @ commas ss"

fun render :: "expr \<Rightarrow> string" where
  "render (BasicLit p v) = v"
| "render (Ident (IdentOf p n)) = n"
| "render (BinaryExpr x opr y) = render x @ '' '' @ opr @ '' '' @ render y"
| "render (KeyValueExpr k v) = render k @ '': '' @ render v"
| "render (ParenExpr x) = ''('' @ render x @ '')''"
| "render (SliceExpr x lo hi mx) =
     render x @ ''['' @ (case lo of None \<Rightarrow> [] | Some l \<Rightarrow> render l) @ '':''
       @ (case hi of None \<Rightarrow> [] | Some h \<Rightarrow> render h)
       @ (case mx of None \<Rightarrow> [] | Some m \<Rightarrow> '':'' @ render m) @ '']''"
| "render (StarExpr x) = ''*'' @ render x"
| "render (TypeAssertExpr x) = render x @ ''.(type)''"
| "render (UnaryExpr opr x) = opr @ render x"
| "render (SelectorExpr x (IdentOf p n)) = render x @ ''.'' @ n"
| "render (CallExpr f args) = render f @ ''('' @ commas (map render args) @ '')''"
| "render (IndexExpr x i) = render x @ ''['' @ render i @ '']''"
| "render (OtherExpr k p xs) = k"

definition example_pass :: pass where
  "example_pass = \<lparr>TypesInfo = example_info, printers = example_printers, pp = render\<rparr>"

abbreviation name_at :: "nat \<Rightarrow> string \<Rightarrow> expr" where
  "name_at p n \<equiv> Ident (IdentOf p n)"

abbreviation fmt_Sprintf :: "nat \<Rightarrow> expr" where
  "fmt_Sprintf p \<equiv> SelectorExpr (name_at p ''fmt'') (IdentOf (p + 4) ''Sprintf'')"

section \<open>Facts about the provenance engine\<close>

declare combine.simps [simp del]

lemmas example_defs =
  example_pass_def example_info_def example_objects_def selobj_def

text \<open>
  A constant verdict leaves the culprit map as it was; a non-constant verdict leaves it
  non-empty.
\<close>

lemma constlit_shape:
  "(\<forall>bad'. constlit ti e bad = Inr (True, bad') \<longrightarrow> bad' = bad) \<and>
   (\<forall>bad'. constlit ti e bad = Inr (False, bad') \<longrightarrow> bad' \<noteq> {})"
  "xs \<noteq> [] \<longrightarrow>
   (\<forall>bad'. combine ti parent bad xs = Inr (True, bad') \<longrightarrow> bad' = bad) \<and>
   (\<forall>bad'. combine ti parent bad xs = Inr (False, bad') \<longrightarrow> bad' \<noteq> {})"
  "\<forall>g' b' bad'. combine_loop ti xs st = Inr (g', b', bad') \<longrightarrow>
      (g' \<longrightarrow> fst st \<and> bad' = snd (snd st) \<and> (xs \<noteq> [] \<longrightarrow> \<not> b')) \<and>
      (\<not> g' \<and> fst st \<longrightarrow> bad' \<noteq> {}) \<and>
      (snd (snd st) \<noteq> {} \<longrightarrow> bad' \<noteq> {})"
proof (induction ti e bad and ti parent bad xs and ti xs st
    rule: constlit_combine_combine_loop.induct)
  case (8 ti x sel bad)
  then show ?case by (auto split: sum.splits if_splits)
next
  case (10 ti idn bad)
  then show ?case by (auto split: if_splits)
next
  case (11 ti f args bad)
  then show ?case by (auto split: sum.splits if_splits bool.splits)
next
  case (14 ti parent bad xs)
  then show ?case by (auto simp: combine.simps split: sum.splits if_splits)
next
  case (15 ti st)
  then show ?case by (cases st) auto
next
  case (16 ti x xs allgood allbad bad)
  show ?case
  proof (cases "constlit ti x bad")
    case (Inl e)
    then show ?thesis by simp
  next
    case (Inr r)
    obtain w m where r: "r = (w, m)" by (cases r)
    show ?thesis
    proof (cases w)
      case True
      with Inr r 16(1) have m: "m = bad" by simp
      from 16(2)[of r w m] Inr r True m show ?thesis by auto
    next
      case False
      with Inr r 16(1) have m: "m \<noteq> {}" by simp
      from 16(3)[of r w m] Inr r False m show ?thesis by auto
    qed
  qed
qed simp_all

lemma constlit_True_same: "constlit ti e bad = Inr (True, bad') \<Longrightarrow> bad' = bad"
  using constlit_shape(1) by blast

lemma constlit_False_nonempty: "constlit ti e bad = Inr (False, bad') \<Longrightarrow> bad' \<noteq> {}"
  using constlit_shape(1) by blast

lemma operand_smaller: "x \<in> set (operands e) \<Longrightarrow> size x < size e"
  by (cases e) (auto split: option.splits)

lemma operand_not_parent: "e \<notin> set (operands e)"
  using operand_smaller by blast

lemma constlit_operands:
  "operands e \<noteq> [] \<Longrightarrow> constlit ti e bad = combine ti e bad (operands e)"
  by (cases e) simp_all

text \<open>The verdict does not depend on the culprit map the evaluation starts from.\<close>

lemma verdict_independent:
  "\<forall>c. verdict (constlit ti e bad) = verdict (constlit ti e c)"
  "\<forall>c. verdict (combine ti parent bad xs) = verdict (combine ti parent c xs)"
  "\<forall>c. flags (combine_loop ti xs st) = flags (combine_loop ti xs (fst st, fst (snd st), c))"
proof (induction ti e bad and ti parent bad xs and ti xs st
    rule: constlit_combine_combine_loop.induct)
  case (8 ti x sel bad)
  then show ?case by (auto simp: verdict_def split: sum.splits)
next
  case (11 ti f args bad)
  show ?case
  proof (cases "length args = 1 \<and> typeexpr ti f")
    case True
    show ?thesis
    proof
      fix c
      from 11 True
      have "verdict (constlit ti (args ! 0) bad) = verdict (constlit ti (args ! 0) c)"
        by blast
      with True
      show "verdict (constlit ti (CallExpr f args) bad) = verdict (constlit ti (CallExpr f args) c)"
        by (auto simp: verdict_def split: sum.splits bool.splits)
    qed
  next
    case False
    then show ?thesis by (auto simp: verdict_def)
  qed
next
  case (14 ti parent bad xs)
  show ?case
  proof
    fix c
    from 14
    have "flags (combine_loop ti xs (True, True, bad)) = flags (combine_loop ti xs (True, True, c))"
      by simp
    then show "verdict (combine ti parent bad xs) = verdict (combine ti parent c xs)"
      by (auto simp: combine.simps verdict_def flags_def split: sum.splits)
  qed
next
  case (15 ti st)
  then show ?case by (cases st) (auto simp: flags_def)
next
  case (16 ti x xs allgood allbad bad)
  show ?case
  proof
    fix c
    from 16(1) have v: "verdict (constlit ti x bad) = verdict (constlit ti x c)" by blast
    show "flags (combine_loop ti (x # xs) (allgood, allbad, bad)) =
          flags (combine_loop ti (x # xs)
                   (fst (allgood, allbad, bad), fst (snd (allgood, allbad, bad)), c))"
    proof (cases "constlit ti x bad")
      case (Inl e)
      with v show ?thesis by (auto simp: verdict_def flags_def split: sum.splits)
    next
      case (Inr r)
      obtain w m where r: "r = (w, m)" by (cases r)
      from v Inr r obtain m' where c: "constlit ti x c = Inr (w, m')"
        by (auto simp: verdict_def split: sum.splits)
      show ?thesis
      proof (cases w)
        case True
        from 16(2)[of r w m] Inr r True
        have "flags (combine_loop ti xs (allgood, False, m)) =
              flags (combine_loop ti xs (allgood, False, m'))"
          by simp
        then show ?thesis using Inr r c True by simp
      next
        case False
        from 16(3)[of r w m] Inr r False
        have "flags (combine_loop ti xs (False, allbad, m)) =
              flags (combine_loop ti xs (False, allbad, m'))"
          by simp
        then show ?thesis using Inr r c False by simp
      qed
    qed
  qed
qed (simp_all add: verdict_def)

lemma loop_all_nonconstant:
  assumes "\<forall>x\<in>set xs. verdict (constlit ti x {}) = Inr False"
  shows "\<exists>B. combine_loop ti xs (g, b, bad) = Inr (g \<and> xs = [], b, B)"
  using assms
proof (induction xs arbitrary: g bad)
  case Nil
  then show ?case by simp
next
  case (Cons x xs)
  from Cons.prems have "verdict (constlit ti x {}) = Inr False" by simp
  with verdict_independent(1)[of ti x bad, THEN spec, of "{}"]
  have "verdict (constlit ti x bad) = Inr False"
    by simp
  then obtain m where m: "constlit ti x bad = Inr (False, m)"
    by (auto simp: verdict_def split: sum.splits)
  from Cons.IH[of False m] Cons.prems
  obtain B where "combine_loop ti xs (False, b, m) = Inr (False, b, B)"
    by auto
  with m show ?case by simp
qed

lemma loop_all_constant:
  assumes "\<forall>x\<in>set xs. \<forall>b. constlit ti x b = Inr (True, b)"
  shows "combine_loop ti xs (g, a, bad) = Inr (g, a \<and> xs = [], bad)"
  using assms by (induction xs arbitrary: a) auto

lemma combine_all_constant:
  assumes "xs \<noteq> []" and "\<forall>x\<in>set xs. \<forall>b. constlit ti x b = Inr (True, b)"
  shows "combine ti parent bad xs = Inr (True, bad)"
  using assms(1) loop_all_constant[OF assms(2), of True True bad]
  by (simp add: combine.simps)

lemma const_only_operands:
  "operands e \<noteq> [] \<Longrightarrow> const_only ti e = list_all (const_only ti) (operands e)"
  by (cases e) (auto split: option.splits)

lemma const_only_constant: "const_only ti e \<Longrightarrow> constlit ti e bad = Inr (True, bad)"
proof (induction e arbitrary: bad rule: measure_induct_rule[where f = size])
  case (less e)
  show ?case
  proof (cases "operands e = []")
    case False
    have "\<forall>x\<in>set (operands e). \<forall>b. constlit ti x b = Inr (True, b)"
    proof (intro ballI allI)
      fix x b
      assume x: "x \<in> set (operands e)"
      with less.prems False have "const_only ti x"
        by (simp add: const_only_operands list_all_iff)
      with less.IH[OF operand_smaller[OF x]] show "constlit ti x b = Inr (True, b)" .
    qed
    from combine_all_constant[OF False this] constlit_operands[OF False]
    show ?thesis by simp
  next
    case True
    show ?thesis
    proof (cases e)
      case (SelectorExpr x sel)
      with less.prems show ?thesis by (auto split: sum.splits option.splits)
    next
      case (CallExpr f args)
      have "\<exists>a. args = [a] \<and> typeexpr ti f \<and> const_only ti a"
      proof (cases args)
        case Nil
        with less.prems CallExpr show ?thesis by simp
      next
        case (Cons a as)
        with less.prems CallExpr show ?thesis by (cases as) simp_all
      qed
      then obtain a where a: "args = [a]" "typeexpr ti f" "const_only ti a" by blast
      have "size a < size e" using CallExpr a(1) by simp
      from less.IH[OF this a(3), of bad] CallExpr a show ?thesis by simp
    qed (use less.prems True in auto)
  qed
qed

lemma const_only_checkformat:
  assumes "const_only (TypesInfo ps) e"
  shows "checkformat ps callfun e passthru = Inr []"
proof (cases e)
  case (Ident idn)
  with assms have "constobj (ObjectOf (TypesInfo ps) idn)" by simp
  then obtain c where "ObjectOf (TypesInfo ps) idn = Some (Const c)"
    by (auto elim: constobj.elims)
  with Ident show ?thesis by simp
qed (use assms const_only_constant[OF assms, of "{}"] in auto)

lemma nonconst_leaf_operands:
  "operands e \<noteq> [] \<Longrightarrow> nonconst_leaf ti e = list_ex (nonconst_leaf ti) (operands e)"
  by (cases e) (auto split: option.splits)

lemma resolved_operands:
  "operands e \<noteq> [] \<Longrightarrow> resolved ti e = list_all (resolved ti) (operands e)"
  by (cases e) (auto split: option.splits)

text \<open>
  On an expression whose member accesses are all resolved the engine returns a verdict.
\<close>

lemma resolved_returns:
  "resolved ti e \<longrightarrow> (\<exists>r. constlit ti e bad = Inr r)"
  "list_all (resolved ti) xs \<longrightarrow> (\<exists>r. combine ti parent bad xs = Inr r)"
  "list_all (resolved ti) xs \<longrightarrow> (\<exists>r. combine_loop ti xs st = Inr r)"
proof (induction ti e bad and ti parent bad xs and ti xs st
    rule: constlit_combine_combine_loop.induct)
  case (4 ti x lo hi mx bad)
  have "operands (SliceExpr x lo hi mx) \<noteq> []" by simp
  from resolved_operands[OF this, of ti] 4
  show ?case by (simp del: resolved.simps)
next
  case (8 ti x sel bad)
  then show ?case by (auto simp: selobj_def split: option.splits selection.splits)
next
  case (11 ti f args bad)
  show ?case
  proof (cases "length args = 1 \<and> typeexpr ti f")
    case True
    then obtain a where a: "args = [a]" by (cases args) auto
    show ?thesis
    proof
      assume "resolved ti (CallExpr f args)"
      with a have "resolved ti a" by simp
      with 11[OF True] a obtain w m where m: "constlit ti a bad = Inr (w, m)" by auto
      from True a m show "\<exists>r. constlit ti (CallExpr f args) bad = Inr r"
        by (cases w) auto
    qed
  next
    case False
    then show ?thesis by auto
  qed
next
  case (14 ti parent bad xs)
  then show ?case by (auto simp: combine.simps split: sum.splits)
next
  case (16 ti x xs allgood allbad bad)
  show ?case
  proof
    assume res: "list_all (resolved ti) (x # xs)"
    with 16(1) obtain w m where m: "constlit ti x bad = Inr (w, m)" by auto
    show "\<exists>r. combine_loop ti (x # xs) (allgood, allbad, bad) = Inr r"
    proof (cases w)
      case True
      from 16(2)[of "(w, m)" w m] m True res show ?thesis by auto
    next
      case False
      from 16(3)[of "(w, m)" w m] m False res show ?thesis by auto
    qed
  qed
qed auto

text \<open>
  Whenever the engine returns a verdict on an expression with a non-constant leaf, the
  verdict is non-constant.
\<close>

lemma nonconst_leaf_verdict:
  "\<forall>v bad'. constlit ti e bad = Inr (v, bad') \<longrightarrow> nonconst_leaf ti e \<longrightarrow> \<not> v"
  "\<forall>v bad'. combine ti parent bad xs = Inr (v, bad') \<longrightarrow>
      list_ex (nonconst_leaf ti) xs \<longrightarrow> \<not> v"
  "\<forall>g' b' bad'. combine_loop ti xs st = Inr (g', b', bad') \<longrightarrow>
      (g' \<longrightarrow> fst st) \<and> (list_ex (nonconst_leaf ti) xs \<longrightarrow> \<not> g')"
proof (induction ti e bad and ti parent bad xs and ti xs st
    rule: constlit_combine_combine_loop.induct)
  case (4 ti x lo hi mx bad)
  have "operands (SliceExpr x lo hi mx) \<noteq> []" by simp
  from nonconst_leaf_operands[OF this, of ti] 4
  show ?case by (simp del: nonconst_leaf.simps)
next
  case (8 ti x sel bad)
  then show ?case by (auto split: sum.splits if_splits)
next
  case (10 ti idn bad)
  then show ?case by (auto split: if_splits)
next
  case (11 ti f args bad)
  show ?case
  proof (cases "length args = 1 \<and> typeexpr ti f")
    case True
    then obtain a where a: "args = [a]" by (cases args) auto
    show ?thesis
    proof (intro allI impI)
      fix v bad'
      assume r: "constlit ti (CallExpr f args) bad = Inr (v, bad')"
        and n: "nonconst_leaf ti (CallExpr f args)"
      from n True a have na: "nonconst_leaf ti a" by simp
      from r True a obtain w m where m: "constlit ti a bad = Inr (w, m)"
        by (auto split: sum.splits)
      with 11[OF True] a na have "\<not> w" by auto
      with r True a m show "\<not> v" by auto
    qed
  next
    case False
    then show ?thesis by auto
  qed
next
  case (14 ti parent bad xs)
  then show ?case by (auto simp: combine.simps split: sum.splits)
next
  case (15 ti st)
  then show ?case by (cases st) auto
next
  case (16 ti x xs allgood allbad bad)
  show ?case
  proof (cases "constlit ti x bad")
    case (Inl e)
    then show ?thesis by simp
  next
    case (Inr r)
    obtain w m where r: "r = (w, m)" by (cases r)
    show ?thesis
    proof (cases w)
      case True
      with 16(1) Inr r have "\<not> nonconst_leaf ti x" by auto
      with 16(2)[of r w m] Inr r True show ?thesis by auto
    next
      case False
      from 16(3)[of r w m] Inr r False show ?thesis by auto
    qed
  qed
qed auto

text \<open>The only panic of the engine is the nil selection.\<close>

lemma constlit_error:
  "\<forall>err. constlit ti e bad = Inl err \<longrightarrow> err = NilDereference"
  "\<forall>err. combine ti parent bad xs = Inl err \<longrightarrow> err = NilDereference"
  "\<forall>err. combine_loop ti xs st = Inl err \<longrightarrow> err = NilDereference"
proof (induction ti e bad and ti parent bad xs and ti xs st
    rule: constlit_combine_combine_loop.induct)
  case (8 ti x sel bad)
  then show ?case by (auto simp: selobj_def split: option.splits selection.splits)
next
  case (11 ti f args bad)
  then show ?case by (auto split: sum.splits if_splits bool.splits)
next
  case (14 ti parent bad xs)
  then show ?case by (auto simp: combine.simps split: sum.splits)
next
  case (16 ti x xs allgood allbad bad)
  show ?case
  proof (cases "constlit ti x bad")
    case (Inl e)
    with 16(1) show ?thesis by simp
  next
    case (Inr r)
    obtain w m where r: "r = (w, m)" by (cases r)
    show ?thesis
    proof (cases w)
      case True
      from 16(2)[of r w m] Inr r True show ?thesis by auto
    next
      case False
      from 16(3)[of r w m] Inr r False show ?thesis by auto
    qed
  qed
qed auto

section \<open>The expectations of the repository's test package\<close>

text \<open>
  Lines of \<^verbatim>\<open>testdata\<close> with the message they want: the model reports what the test
  expects.
\<close>

lemma testdata_variable:
  "run \<lparr>SuppressNoArgs = False\<rparr> example_pass
     [CallExprN (fmt_Sprintf 10) [name_at 22 ''v1'']] =
   Inr [\<lparr>Pos = NodePos (name_at 22 ''v1''),
         Message = ''variable `v1` used for fmt.Sprintf format parameter'',
         Related = {RelatedInformation (ObjectPos (Var 1)) ''defined here''}\<rparr>]"
  by (simp add: run_def example_defs)

lemma testdata_concatenation:
  "map Message (projr (run \<lparr>SuppressNoArgs = False\<rparr> example_pass
     [CallExprN (fmt_Sprintf 10)
        [BinaryExpr (BinaryExpr (name_at 22 ''v1'') ''+'' (name_at 27 ''v2'')) ''+''
           (name_at 32 ''v3'')]])) =
   [''variable `v1 + v2 + v3` used for fmt.Sprintf format parameter'']"
  by (simp add: run_def example_defs combine.simps culprit_msg_def)

lemma testdata_slice:
  "map Message (projr (run \<lparr>SuppressNoArgs = False\<rparr> example_pass
     [CallExprN (fmt_Sprintf 10)
        [SliceExpr (name_at 22 ''v3'') (Some (BasicLit 25 ''0'')) (Some (BasicLit 27 ''2'')) None]])) =
   [''variable `v3` used for fmt.Sprintf format parameter'']"
  by (simp add: run_def example_defs combine.simps culprit_msg_def)

lemma testdata_parenthesised:
  "map Message (projr (run \<lparr>SuppressNoArgs = False\<rparr> example_pass
     [CallExprN (fmt_Sprintf 10)
        [ParenExpr (BinaryExpr (name_at 23 ''v1'') ''+'' (name_at 28 ''c1''))]])) =
   [''non-constant expression used for fmt.Sprintf format parameter'']"
  by (simp add: run_def example_defs combine.simps culprit_msg_def)

lemma testdata_good:
  "run \<lparr>SuppressNoArgs = False\<rparr> example_pass
     [CallExprN (fmt_Sprintf 10)
        [BinaryExpr (BinaryExpr (name_at 22 ''c1'') ''+'' (name_at 27 ''c2'')) ''+''
           (name_at 32 ''c3'')],
      CallExprN (fmt_Sprintf 50)
        [CallExpr (name_at 62 ''string'')
           [CallExpr (SelectorExpr (name_at 69 ''pkg'') (IdentOf 73 ''String''))
              [BasicLit 80 ''abc'']]],
      CallExprN (fmt_Sprintf 90) [SelectorExpr (name_at 102 ''pkg'') (IdentOf 106 ''C'')]] =
   Inr []"
  by (simp add: run_def example_defs combine.simps)

lemma testdata_wrappers:
  "run \<lparr>SuppressNoArgs = False\<rparr> example_pass
     [FuncDeclN (IdentOf 5 ''passthrough'') [Field [IdentOf 17 ''format''], Field [IdentOf 32 ''args'']],
      CallExprN (fmt_Sprintf 60) [name_at 72 ''format'', name_at 80 ''args''],
      AssignStmtN [name_at 90 ''format''],
      CallExprN (fmt_Sprintf 110) [name_at 122 ''format'', name_at 130 ''args'']] =
   Inr [\<lparr>Pos = NodePos (name_at 122 ''format''),
         Message = ''variable `format` used for fmt.Sprintf format parameter'',
         Related = {RelatedInformation (ObjectPos (Var 6)) ''defined here''}\<rparr>]"
  by (simp add: run_def example_defs nthName_def)

section \<open>The combination rule\<close>

text \<open>
  C2, as the code has it: for a composite expression (binary operation, parentheses,
  slice, key-value pair, unary operation, dereference, type assertion) all of whose
  immediate operands are judged non-constant, the engine returns a non-constant verdict,
  and the culprit map afterwards is the map left by evaluating the operands in order,
  without the immediate operand nodes and with the parent node added. The parent is a
  culprit and no immediate operand is; culprits that an operand's evaluation recorded
  on other nodes, deeper in the operand, stay.
\<close>

theorem combine_all_nonconstant:
  assumes "operands e \<noteq> []"
    and "\<forall>x\<in>set (operands e). verdict (constlit ti x {}) = Inr False"
  shows "\<exists>B bad'. combine_loop ti (operands e) (True, True, bad) = Inr (False, True, B) \<and>
           constlit ti e bad = Inr (False, bad') \<and>
           bad' = insert e (B - set (operands e)) \<and>
           e \<in> bad' \<and> (\<forall>x\<in>set (operands e). x \<notin> bad')"
proof -
  from loop_all_nonconstant[OF assms(2), of True True bad] assms(1)
  obtain B where B: "combine_loop ti (operands e) (True, True, bad) = Inr (False, True, B)"
    by auto
  have "constlit ti e bad = Inr (False, insert e (B - set (operands e)))"
    using constlit_operands[OF assms(1), of ti bad] B by (simp add: combine.simps)
  moreover have "\<forall>x\<in>set (operands e). x \<notin> insert e (B - set (operands e))"
    using operand_not_parent[of e] by auto
  ultimately show ?thesis using B by auto
qed

theorem combine_all_nonconstant_witness:
  "operands (BinaryExpr (name_at 30 ''v1'') ''+'' (name_at 35 ''v2'')) \<noteq> [] \<and>
   verdict (constlit example_info (name_at 30 ''v1'') {}) = Inr False \<and>
   verdict (constlit example_info (name_at 35 ''v2'') {}) = Inr False \<and>
   (\<exists>B bad'. combine_loop example_info
                (operands (BinaryExpr (name_at 30 ''v1'') ''+'' (name_at 35 ''v2'')))
                (True, True, {}) = Inr (False, True, B) \<and>
      constlit example_info (BinaryExpr (name_at 30 ''v1'') ''+'' (name_at 35 ''v2'')) {} =
        Inr (False, bad') \<and>
      bad' = insert (BinaryExpr (name_at 30 ''v1'') ''+'' (name_at 35 ''v2''))
               (B - set (operands (BinaryExpr (name_at 30 ''v1'') ''+'' (name_at 35 ''v2'')))) \<and>
      BinaryExpr (name_at 30 ''v1'') ''+'' (name_at 35 ''v2'') \<in> bad' \<and>
      name_at 30 ''v1'' \<notin> bad' \<and> name_at 35 ''v2'' \<notin> bad')"
proof -
  have v: "verdict (constlit example_info (name_at 30 ''v1'') {}) = Inr False"
          "verdict (constlit example_info (name_at 35 ''v2'') {}) = Inr False"
    by (simp_all add: verdict_def example_info_def example_objects_def)
  have "\<forall>x\<in>set (operands (BinaryExpr (name_at 30 ''v1'') ''+'' (name_at 35 ''v2''))).
          verdict (constlit example_info x {}) = Inr False"
    using v by simp
  from combine_all_nonconstant[OF _ this, of "{}"] v show ?thesis by simp
qed

text \<open>
  The claim as stated asks for the parent to be the only culprit. In \<open>(v1 + c1)\<close> the
  only operand of the parentheses, \<open>v1 + c1\<close>, is non-constant; its evaluation records
  \<open>v1\<close>, and the culprit map ends with \<open>v1\<close> and the parenthesised expression.
\<close>

theorem paren_mixed_counterexample:
  "verdict (constlit example_info
      (BinaryExpr (name_at 30 ''v1'') ''+'' (name_at 35 ''c1'')) {}) = Inr False \<and>
   constlit example_info
      (ParenExpr (BinaryExpr (name_at 30 ''v1'') ''+'' (name_at 35 ''c1''))) {} =
     Inr (False, {name_at 30 ''v1'',
                  ParenExpr (BinaryExpr (name_at 30 ''v1'') ''+'' (name_at 35 ''c1''))}) \<and>
   constlit example_info
      (ParenExpr (BinaryExpr (name_at 30 ''v1'') ''+'' (name_at 35 ''c1''))) {} \<noteq>
     Inr (False, {ParenExpr (BinaryExpr (name_at 30 ''v1'') ''+'' (name_at 35 ''c1''))})"
  by (simp add: verdict_def combine.simps example_info_def example_objects_def insert_commute)

section \<open>Indexing\<close>

text \<open>
  C4: an indexing expression \<open>container[key]\<close> is judged non-constant whatever its
  container and key are, and the culprit recorded for it is the whole indexing
  expression: the engine adds that node to the culprit map and nothing else, and a call
  whose format argument is an indexing expression gets a diagnostic whose only related
  note is the indexing expression.
\<close>

theorem index_always_nonconstant:
  "constlit ti (IndexExpr x i) bad = Inr (False, insert (IndexExpr x i) bad) \<and>
   checkformat ps callfun (IndexExpr x i) passthru =
     Inr [\<lparr>Pos = NodePos (IndexExpr x i),
           Message = culprit_msg ps {IndexExpr x i} @ '' used for '' @ pp ps callfun
                     @ '' format parameter'',
           Related = {RelatedInformation (NodePos (IndexExpr x i))
                        (''Non-constant: '' @ pp ps (IndexExpr x i))}\<rparr>]"
  by simp

theorem index_always_nonconstant_witness:
  "constlit example_info (IndexExpr (name_at 30 ''c1'') (BasicLit 33 ''0'')) {} =
     Inr (False, {IndexExpr (name_at 30 ''c1'') (BasicLit 33 ''0'')}) \<and>
   checkformat example_pass (fmt_Sprintf 10) (IndexExpr (name_at 30 ''c1'') (BasicLit 33 ''0'')) {} =
     Inr [\<lparr>Pos = NodePos (IndexExpr (name_at 30 ''c1'') (BasicLit 33 ''0'')),
           Message = ''variable `c1[0]` used for fmt.Sprintf format parameter'',
           Related = {RelatedInformation (NodePos (IndexExpr (name_at 30 ''c1'') (BasicLit 33 ''0'')))
                        ''Non-constant: c1[0]''}\<rparr>]"
  using index_always_nonconstant [of example_info "name_at 30 ''c1''" "BasicLit 33 ''0''" "{}"
      example_pass "fmt_Sprintf 10" "{}"]
  by (simp add: culprit_msg_def example_pass_def)

section \<open>Constant expressions\<close>

text \<open>
  C7: for an expression built only from literals, references to declared constants
  (identifiers or member accesses) and single-argument conversions to a named type of
  such an expression, however these are put together by binary and unary operations,
  parentheses, slices, key-value pairs, dereferences and type assertions, the engine
  returns a constant verdict and leaves the culprit map unchanged, and a call with that
  expression as its format argument gets no diagnostic.
\<close>

theorem const_only_no_report:
  assumes "const_only (TypesInfo ps) e"
  shows "constlit (TypesInfo ps) e bad = Inr (True, bad) \<and>
         (callfun_checkarg ps callfun = Inr i \<and> 0 \<le> i \<and> nat i < length args \<and>
          args ! nat i = e \<longrightarrow>
            visit v ps (CallExprN callfun args) (passthru, reports) = Inr (passthru, reports))"
  using const_only_constant[OF assms, of bad] const_only_checkformat[OF assms, of callfun passthru]
  by auto

theorem const_only_no_report_witness:
  "const_only (TypesInfo example_pass)
     (CallExpr (name_at 30 ''string'')
        [SliceExpr
           (ParenExpr (BinaryExpr (name_at 38 ''c1'') ''+''
              (CallExpr (SelectorExpr (name_at 43 ''pkg'') (IdentOf 47 ''String''))
                 [BasicLit 54 ''abc''])))
           None (Some (BasicLit 62 ''2'')) None]) \<and>
   constlit (TypesInfo example_pass)
     (CallExpr (name_at 30 ''string'')
        [SliceExpr
           (ParenExpr (BinaryExpr (name_at 38 ''c1'') ''+''
              (CallExpr (SelectorExpr (name_at 43 ''pkg'') (IdentOf 47 ''String''))
                 [BasicLit 54 ''abc''])))
           None (Some (BasicLit 62 ''2'')) None]) {} =
     Inr (True, {}) \<and>
   callfun_checkarg example_pass (fmt_Sprintf 10) = Inr 0 \<and>
   visit \<lparr>SuppressNoArgs = False\<rparr> example_pass
     (CallExprN (fmt_Sprintf 10)
        [CallExpr (name_at 30 ''string'')
           [SliceExpr
              (ParenExpr (BinaryExpr (name_at 38 ''c1'') ''+''
                 (CallExpr (SelectorExpr (name_at 43 ''pkg'') (IdentOf 47 ''String''))
                    [BasicLit 54 ''abc''])))
              None (Some (BasicLit 62 ''2'')) None]])
     ({}, []) = Inr ({}, [])"
proof -
  let ?e = "CallExpr (name_at 30 ''string'')
        [SliceExpr
           (ParenExpr (BinaryExpr (name_at 38 ''c1'') ''+''
              (CallExpr (SelectorExpr (name_at 43 ''pkg'') (IdentOf 47 ''String''))
                 [BasicLit 54 ''abc''])))
           None (Some (BasicLit 62 ''2'')) None]"
  have c: "const_only (TypesInfo example_pass) ?e"
    by (simp add: example_defs)
  have k: "callfun_checkarg example_pass (fmt_Sprintf 10) = Inr 0"
    by (simp add: example_defs)
  from const_only_no_report[OF c, of "{}" "fmt_Sprintf 10" 0 "[?e]"
      "\<lparr>SuppressNoArgs = False\<rparr>" "{}" "[]"] c k
  show ?thesis by simp
qed

section \<open>Non-constant expressions\<close>

text \<open>
  For an expression with at least one non-constant leaf that is not inside an indexing
  expression, the engine returns a non-constant verdict and leaves a non-empty culprit
  map, from whatever map the evaluation starts, or it panics on the nil selection of
  \<^verbatim>\<open>selobj\<close>, at a member access for which the type checker recorded neither an object
  nor a selection. The leaf may be an operand of a composite form, an argument of a
  call, the function of a call, or lie inside another kind of expression.
\<close>

lemma nonconst_leaf_nonconstant:
  assumes "nonconst_leaf ti e"
  shows "(\<exists>bad'. constlit ti e bad = Inr (False, bad') \<and> bad' \<noteq> {}) \<or>
         (constlit ti e bad = Inl NilDereference \<and> \<not> resolved ti e)"
proof (cases "constlit ti e bad")
  case (Inl err)
  with constlit_error(1)[of ti e bad] have "constlit ti e bad = Inl NilDereference" by simp
  moreover from Inl resolved_returns(1)[of ti e bad] have "\<not> resolved ti e" by auto
  ultimately show ?thesis by simp
next
  case (Inr r)
  obtain v bad' where r: "r = (v, bad')" by (cases r)
  with Inr nonconst_leaf_verdict(1)[of ti e bad] assms have "\<not> v" by auto
  with Inr r have "constlit ti e bad = Inr (False, bad')" by simp
  with constlit_False_nonempty[OF this] show ?thesis by simp
qed

lemma nonconst_leaf_nonconstant_example:
  "nonconst_leaf example_info
     (BinaryExpr (SelectorExpr (name_at 30 ''pkg'') (IdentOf 34 ''C'')) ''+''
        (CallExpr (name_at 38 ''v1'') [name_at 41 ''c1''])) \<and>
   resolved example_info
     (BinaryExpr (SelectorExpr (name_at 30 ''pkg'') (IdentOf 34 ''C'')) ''+''
        (CallExpr (name_at 38 ''v1'') [name_at 41 ''c1''])) \<and>
   (\<exists>bad'. constlit example_info
      (BinaryExpr (SelectorExpr (name_at 30 ''pkg'') (IdentOf 34 ''C'')) ''+''
         (CallExpr (name_at 38 ''v1'') [name_at 41 ''c1''])) {} =
        Inr (False, bad') \<and> bad' \<noteq> {})"
proof -
  let ?e = "BinaryExpr (SelectorExpr (name_at 30 ''pkg'') (IdentOf 34 ''C'')) ''+''
        (CallExpr (name_at 38 ''v1'') [name_at 41 ''c1''])"
  have n: "nonconst_leaf example_info ?e"
    by (simp add: example_defs)
  have r: "resolved example_info ?e"
    by (simp add: example_defs)
  from nonconst_leaf_nonconstant[OF n, of "{}"] r n show ?thesis by blast
qed


section \<open>Facts about the traversal driver\<close>

text \<open>\<^verbatim>\<open>nthName\<close> is the name at position \<open>k\<close> of the declared parameter names, if there is one.\<close>

lemma nthName_names_eq:
  "0 \<le> i \<Longrightarrow> i \<le> k \<Longrightarrow> nthName_names ns i k =
     (if nat (k - i) < length ns then Inl (ns ! nat (k - i)) else Inr (i + int (length ns)))"
proof (induction ns arbitrary: i)
  case Nil
  then show ?case by simp
next
  case (Cons n ns)
  show ?case
  proof (cases "i = k")
    case True
    then show ?thesis by simp
  next
    case False
    with Cons.prems have lt: "i + 1 \<le> k" "0 \<le> i + 1" by auto
    have "nat (k - i) = Suc (nat (k - (i + 1)))" using lt by auto
    with Cons.IH[OF lt(2) lt(1)] False show ?thesis by auto
  qed
qed

lemma nthName_fields_eq:
  "0 \<le> i \<Longrightarrow> i \<le> k \<Longrightarrow> nthName_fields flds i k =
     (if nat (k - i) < length (param_names flds) then Some (param_names flds ! nat (k - i)) else None)"
proof (induction flds arbitrary: i)
  case Nil
  then show ?case by (simp add: param_names_def)
next
  case (Cons fld flds)
  obtain names where fld: "fld = Field names" by (cases fld)
  show ?case
  proof (cases "nat (k - i) < length names")
    case True
    with Cons.prems fld show ?thesis
      by (simp add: nthName_names_eq param_names_def nth_append)
  next
    case False
    with Cons.prems have le: "i + int (length names) \<le> k" "0 \<le> i + int (length names)" by auto
    have eq: "nat (k - (i + int (length names))) = nat (k - i) - length names" by auto
    from False Cons.prems fld Cons.IH[OF le(2) le(1)] show ?thesis
      by (auto simp: nthName_names_eq param_names_def nth_append eq)
  qed
qed

lemma nthName_names_neg: "k < i \<Longrightarrow> nthName_names ns i k = Inr (i + int (length ns))"
  by (induction ns arbitrary: i) auto

lemma nthName_fields_neg: "k < i \<Longrightarrow> nthName_fields flds i k = None"
proof (induction flds arbitrary: i)
  case Nil
  then show ?case by simp
next
  case (Cons fld flds)
  obtain names where fld: "fld = Field names" by (cases fld)
  from Cons.prems have "k < i + int (length names)" by simp
  from Cons.IH[OF this] Cons.prems fld show ?case by (simp add: nthName_names_neg)
qed

lemma nthName_eq:
  "nthName flds k =
     (if 0 \<le> k \<and> nat k < length (param_names flds) then Some (param_names flds ! nat k) else None)"
proof (cases "0 \<le> k")
  case True
  with nthName_fields_eq[of 0 k flds] show ?thesis by (simp add: nthName_def)
next
  case False
  then show ?thesis by (simp add: nthName_def nthName_fields_neg)
qed

text \<open>What one visit and a whole traversal do to the registry.\<close>

lemma invalidate_mem:
  "obj \<in> invalidate ti lhs P \<longleftrightarrow>
     obj \<in> P \<and> \<not> list_ex (\<lambda>lh. case lh of Ident idn \<Rightarrow> ObjectOf ti idn = Some obj | _ \<Rightarrow> False) lhs"
  by (induction ti lhs P rule: invalidate.induct) (auto split: option.splits)

lemma visit_call_registry:
  "visit v ps (CallExprN callfun args) (P, r) = Inr (P', r') \<Longrightarrow> P' = P"
  by (auto split: sum.splits if_splits)

lemma visit_keeps:
  assumes "visit v ps n (P, r) = Inr (P', r')" and "\<not> assigns (TypesInfo ps) obj n" and "obj \<in> P"
  shows "obj \<in> P'"
proof (cases n)
  case (FuncDeclN name params)
  with assms show ?thesis by (auto simp: Let_def split: option.splits if_splits)
next
  case (AssignStmtN lhs)
  with assms show ?thesis by (auto simp: invalidate_mem)
next
  case (CallExprN callfun args)
  with assms visit_call_registry show ?thesis by blast
qed

lemma visit_no_decl:
  assumes "visit v ps n (P, r) = Inr (P', r')" and "\<not> is_FuncDecl n"
  shows "P' \<subseteq> P"
proof (cases n)
  case (FuncDeclN name params)
  with assms show ?thesis by simp
next
  case (AssignStmtN lhs)
  with assms show ?thesis by (auto simp: invalidate_mem)
next
  case (CallExprN callfun args)
  with assms visit_call_registry show ?thesis by blast
qed

lemma visit_assign_removes:
  assumes "visit v ps n (P, r) = Inr (P', r')" and "assigns (TypesInfo ps) obj n"
  shows "obj \<notin> P'"
proof (cases n)
  case (AssignStmtN lhs)
  with assms show ?thesis by (auto simp: invalidate_mem)
qed (use assms in auto)

lemma preorder_keeps:
  "preorder v ps ns (P, r) = Inr (P', r') \<Longrightarrow> \<not> list_ex (assigns (TypesInfo ps) obj) ns \<Longrightarrow>
   obj \<in> P \<Longrightarrow> obj \<in> P'"
proof (induction ns arbitrary: P r)
  case Nil
  then show ?case by simp
next
  case (Cons n ns)
  from Cons.prems(1) obtain P1 r1 where v1: "visit v ps n (P, r) = Inr (P1, r1)"
    and rest: "preorder v ps ns (P1, r1) = Inr (P', r')"
    by (auto split: sum.splits)
  from visit_keeps[OF v1] Cons.prems have "obj \<in> P1" by simp
  with Cons.IH[OF rest] Cons.prems show ?case by simp
qed

lemma preorder_no_decl:
  "preorder v ps ns (P, r) = Inr (P', r') \<Longrightarrow> list_all (\<lambda>n. \<not> is_FuncDecl n) ns \<Longrightarrow> P' \<subseteq> P"
proof (induction ns arbitrary: P r)
  case Nil
  then show ?case by simp
next
  case (Cons n ns)
  from Cons.prems(1) obtain P1 r1 where v1: "visit v ps n (P, r) = Inr (P1, r1)"
    and rest: "preorder v ps ns (P1, r1) = Inr (P', r')"
    by (auto split: sum.splits)
  from visit_no_decl[OF v1] Cons.prems have "P1 \<subseteq> P" by simp
  moreover from Cons.IH[OF rest] Cons.prems have "P' \<subseteq> P1" by simp
  ultimately show ?case by blast
qed

lemma preorder_assigned:
  "preorder v ps ns (P, r) = Inr (P', r') \<Longrightarrow> list_all (\<lambda>n. \<not> is_FuncDecl n) ns \<Longrightarrow>
   list_ex (assigns (TypesInfo ps) obj) ns \<Longrightarrow> obj \<notin> P'"
proof (induction ns arbitrary: P r)
  case Nil
  then show ?case by simp
next
  case (Cons n ns)
  from Cons.prems(1) obtain P1 r1 where v1: "visit v ps n (P, r) = Inr (P1, r1)"
    and rest: "preorder v ps ns (P1, r1) = Inr (P', r')"
    by (auto split: sum.splits)
  show ?case
  proof (cases "list_ex (assigns (TypesInfo ps) obj) ns")
    case True
    with Cons.IH[OF rest] Cons.prems show ?thesis by simp
  next
    case False
    with Cons.prems have "assigns (TypesInfo ps) obj n" by simp
    from visit_assign_removes[OF v1 this] have "obj \<notin> P1" .
    moreover from preorder_no_decl[OF rest] Cons.prems have "P' \<subseteq> P1" by simp
    ultimately show ?thesis by blast
  qed
qed

lemma visit_call_ident:
  assumes "callfun_checkarg ps callfun = Inr j" "0 \<le> j" "nat j < length args"
    "args ! nat j = Ident a" "ObjectOf (TypesInfo ps) a = Some (Var w)"
  shows "visit v ps (CallExprN callfun args) (P, r) =
           Inr (P, if suppressed v args j \<or> Var w \<in> P then r
                   else r @ [variable_report ps callfun a (Var w)])"
  using assms by (auto simp: suppressed_def variable_report_def)

lemma checkformat_general:
  assumes "\<forall>idn. arg \<noteq> Ident idn"
  shows "checkformat ps callfun arg passthru =
     (case constlit (TypesInfo ps) arg {} of
        Inl e \<Rightarrow> Inl e
      | Inr (True, bad) \<Rightarrow> Inr []
      | Inr (False, bad) \<Rightarrow>
          Inr [\<lparr>Pos = NodePos arg,
                Message = culprit_msg ps bad @ '' used for '' @ pp ps callfun
                          @ '' format parameter'',
                Related = (\<lambda>x. RelatedInformation (NodePos x) (''Non-constant: '' @ pp ps x))
                            ` bad\<rparr>])"
  using assms by (cases arg; clarsimp simp del: constlit.simps)

lemma culprit_msg_single:
  "length (pp ps x) < 32 \<Longrightarrow> culprit_msg ps {x} = ''variable `'' @ pp ps x @ ''`''"
  by (simp add: culprit_msg_def)

lemma culprit_msg_other:
  assumes "\<forall>x. bad = {x} \<longrightarrow> 32 \<le> length (pp ps x)"
  shows "culprit_msg ps bad = ''non-constant expression''"
proof (cases "card bad = 1")
  case True
  then obtain x where "bad = {x}" by (auto simp: card_1_singleton_iff)
  with assms show ?thesis by (simp add: culprit_msg_def)
next
  case False
  then show ?thesis by (simp add: culprit_msg_def)
qed


section \<open>The SuppressNoArgs option\<close>

text \<open>
  C1, as the code has it: with \<open>SuppressNoArgs\<close> set, a call to a format-consuming
  function that passes at least one value after the format argument gets no diagnostic
  (the callback returns before it looks at the format argument), and a call that passes
  nothing after the format argument is checked exactly as without the option.
\<close>

theorem suppress_when_args_passed:
  assumes "callfun_checkarg ps callfun = Inr i" and "SuppressNoArgs v"
  shows "(int (length args) - 1 > i \<longrightarrow>
            visit v ps (CallExprN callfun args) st = Inr st) \<and>
         (int (length args) - 1 \<le> i \<longrightarrow>
            visit v ps (CallExprN callfun args) st =
            visit (v\<lparr>SuppressNoArgs := False\<rparr>) ps (CallExprN callfun args) st)"
  using assms by (cases st) auto

theorem suppress_when_args_passed_witness:
  "callfun_checkarg example_pass (fmt_Sprintf 10) = Inr 0 \<and>
   SuppressNoArgs \<lparr>SuppressNoArgs = True\<rparr> \<and>
   visit \<lparr>SuppressNoArgs = True\<rparr> example_pass
     (CallExprN (fmt_Sprintf 10) [name_at 22 ''v1'', name_at 26 ''v2'']) ({}, []) = Inr ({}, []) \<and>
   visit \<lparr>SuppressNoArgs = True\<rparr> example_pass
     (CallExprN (fmt_Sprintf 10) [name_at 22 ''v1'']) ({}, []) =
   visit \<lparr>SuppressNoArgs = False\<rparr> example_pass
     (CallExprN (fmt_Sprintf 10) [name_at 22 ''v1'']) ({}, [])"
proof -
  have k: "callfun_checkarg example_pass (fmt_Sprintf 10) = Inr 0"
    by (simp add: example_defs)
  have t: "SuppressNoArgs \<lparr>SuppressNoArgs = True\<rparr>" by simp
  from suppress_when_args_passed[OF k t, of "[name_at 22 ''v1'', name_at 26 ''v2'']" "({}, [])"]
    suppress_when_args_passed[OF k t, of "[name_at 22 ''v1'']" "({}, [])"] k
  show ?thesis by simp
qed

text \<open>
  The claim as stated has it the other way round. With the option set,
  \<open>fmt.Sprintf(v1)\<close>, which passes no value after the format, is reported, and
  \<open>fmt.Sprintf(v1, v2)\<close>, which passes one, is not.
\<close>

theorem suppress_no_args_counterexample:
  "run \<lparr>SuppressNoArgs = True\<rparr> example_pass
     [CallExprN (fmt_Sprintf 10) [name_at 22 ''v1'']] =
     Inr [\<lparr>Pos = NodePos (name_at 22 ''v1''),
           Message = ''variable `v1` used for fmt.Sprintf format parameter'',
           Related = {RelatedInformation (ObjectPos (Var 1)) ''defined here''}\<rparr>] \<and>
   run \<lparr>SuppressNoArgs = True\<rparr> example_pass
     [CallExprN (fmt_Sprintf 10) [name_at 22 ''v1'', name_at 26 ''v2'']] = Inr []"
  by (simp add: run_def example_defs)

section \<open>The pass-through registry\<close>

text \<open>
  C6, as the code has it: the registry is one map for the whole run and nothing clears
  it at a function boundary. Over any stretch of the traversal, function declarations
  included, an entry stays in the registry unless an assignment in that stretch has its
  symbol as a bare identifier among the targets; and a stretch without function
  declarations adds no entry.
\<close>

theorem registry_persists:
  assumes "preorder v ps ns (P, r) = Inr (P', r')"
  shows "(obj \<in> P \<and> \<not> list_ex (assigns (TypesInfo ps) obj) ns \<longrightarrow> obj \<in> P') \<and>
         (list_all (\<lambda>n. \<not> is_FuncDecl n) ns \<longrightarrow> P' \<subseteq> P)"
  using preorder_keeps[OF assms] preorder_no_decl[OF assms] by blast

theorem registry_persists_witness:
  "preorder \<lparr>SuppressNoArgs = False\<rparr> example_pass
     [FuncDeclN (IdentOf 100 ''bad'') [], CallExprN (fmt_Sprintf 120) [name_at 132 ''c1'']]
     ({Var 6}, []) = Inr ({Var 6}, []) \<and>
   Var 6 \<in> {Var 6} \<and>
   \<not> list_ex (assigns (TypesInfo example_pass) (Var 6))
       [FuncDeclN (IdentOf 100 ''bad'') [], CallExprN (fmt_Sprintf 120) [name_at 132 ''c1'']] \<and>
   preorder \<lparr>SuppressNoArgs = False\<rparr> example_pass
     [CallExprN (fmt_Sprintf 120) [name_at 132 ''c1'']] ({Var 6}, []) = Inr ({Var 6}, []) \<and>
   list_all (\<lambda>n. \<not> is_FuncDecl n) [CallExprN (fmt_Sprintf 120) [name_at 132 ''c1'']]"
proof -
  have a: "preorder \<lparr>SuppressNoArgs = False\<rparr> example_pass
     [FuncDeclN (IdentOf 100 ''bad'') [], CallExprN (fmt_Sprintf 120) [name_at 132 ''c1'']]
     ({Var 6}, []) = Inr ({Var 6}, [])"
    by (simp add: example_defs nthName_def)
  have b: "preorder \<lparr>SuppressNoArgs = False\<rparr> example_pass
     [CallExprN (fmt_Sprintf 120) [name_at 132 ''c1'']] ({Var 6}, []) = Inr ({Var 6}, [])"
    by (simp add: example_defs)
  from registry_persists[OF a, of "Var 6"] registry_persists[OF b, of "Var 6"] a b
  show ?thesis by simp
qed

text \<open>
  The claim as stated asks for the registry to be cleared at function boundaries. After
  the declaration of \<open>passthrough(format, args)\<close> with its inner call, and then the
  declaration of \<open>bad()\<close> with a call in its body, the entry of \<open>format\<close> is still there.
\<close>

theorem registry_not_cleared_counterexample:
  "preorder \<lparr>SuppressNoArgs = False\<rparr> example_pass
     [FuncDeclN (IdentOf 5 ''passthrough'') [Field [IdentOf 17 ''format''], Field [IdentOf 32 ''args'']],
      CallExprN (fmt_Sprintf 60) [name_at 72 ''format'', name_at 80 ''args''],
      FuncDeclN (IdentOf 100 ''bad'') [],
      CallExprN (fmt_Sprintf 120) [name_at 132 ''c1'']]
     ({}, []) = Inr ({Var 6}, [])"
  by (simp add: example_defs nthName_def)

section \<open>Pass-through parameters\<close>

text \<open>
  C3, as the code has it. A function declaration is classified at format index \<open>i\<close>, its
  \<open>i\<close>-th parameter name is bound to the variable \<open>w\<close>, and after the nodes of its body
  an inner format-consuming call has as its format argument a bare identifier bound to
  \<open>w\<close>. If no assignment of the body has \<open>w\<close> as a bare-identifier target, the inner call
  gets no diagnostic. If one has, the inner call gets the diagnostic of a variable,
  unless \<open>SuppressNoArgs\<close> is set and the call passes values after the format argument:
  then it gets none.
\<close>

theorem passthrough_exemption:
  assumes "ObjectOf (TypesInfo ps) name = Some fobj"
    and "fmtarg (printers ps) (Some fobj) = i" and "0 \<le> i"
    and "nat i < length (param_names params)"
    and "ObjectOf (TypesInfo ps) (param_names params ! nat i) = Some (Var w)"
    and "list_all (\<lambda>n. \<not> is_FuncDecl n) body"
    and "preorder v ps (FuncDeclN name params # body) st = Inr (P', r')"
    and "callfun_checkarg ps callfun = Inr j" and "0 \<le> j" and "nat j < length args"
    and "args ! nat j = Ident a" and "ObjectOf (TypesInfo ps) a = Some (Var w)"
  shows "(\<not> list_ex (assigns (TypesInfo ps) (Var w)) body \<longrightarrow>
            visit v ps (CallExprN callfun args) (P', r') = Inr (P', r')) \<and>
         (list_ex (assigns (TypesInfo ps) (Var w)) body \<longrightarrow>
            visit v ps (CallExprN callfun args) (P', r') =
              Inr (P', if suppressed v args j then r'
                       else r' @ [variable_report ps callfun a (Var w)]))"
proof -
  obtain P r where st: "st = (P, r)" by (cases st)
  from assms(1-5) have decl:
    "visit v ps (FuncDeclN name params) (P, r) = Inr (insert (Var w) P, r)"
    by (simp add: nthName_eq)
  with assms(7) st have body: "preorder v ps body (insert (Var w) P, r) = Inr (P', r')"
    by simp
  note call = visit_call_ident[OF assms(8-12), of v P' r']
  have "\<not> list_ex (assigns (TypesInfo ps) (Var w)) body \<Longrightarrow> Var w \<in> P'"
    using preorder_keeps[OF body, of "Var w"] by simp
  moreover have "list_ex (assigns (TypesInfo ps) (Var w)) body \<Longrightarrow> Var w \<notin> P'"
    using preorder_assigned[OF body assms(6)] by simp
  ultimately show ?thesis using call by auto
qed

theorem passthrough_exemption_witness:
  "preorder \<lparr>SuppressNoArgs = False\<rparr> example_pass
     [FuncDeclN (IdentOf 5 ''passthrough'') [Field [IdentOf 17 ''format''], Field [IdentOf 32 ''args'']]]
     ({}, []) = Inr ({Var 6}, []) \<and>
   visit \<lparr>SuppressNoArgs = False\<rparr> example_pass
     (CallExprN (fmt_Sprintf 60) [name_at 72 ''format'', name_at 80 ''args'']) ({Var 6}, []) =
     Inr ({Var 6}, []) \<and>
   preorder \<lparr>SuppressNoArgs = False\<rparr> example_pass
     [FuncDeclN (IdentOf 5 ''passthrough'') [Field [IdentOf 17 ''format''], Field [IdentOf 32 ''args'']],
      AssignStmtN [name_at 50 ''format'']]
     ({}, []) = Inr ({}, []) \<and>
   visit \<lparr>SuppressNoArgs = False\<rparr> example_pass
     (CallExprN (fmt_Sprintf 60) [name_at 72 ''format'', name_at 80 ''args'']) ({}, []) =
     Inr ({}, [variable_report example_pass (fmt_Sprintf 60) (IdentOf 72 ''format'') (Var 6)])"
proof -
  let ?decl = "FuncDeclN (IdentOf 5 ''passthrough'')
                 [Field [IdentOf 17 ''format''], Field [IdentOf 32 ''args'']]"
  let ?args = "[name_at 72 ''format'', name_at 80 ''args'']"
  have f: "ObjectOf (TypesInfo example_pass) (IdentOf 5 ''passthrough'') = Some (Func 33 2)"
    "fmtarg (printers example_pass) (Some (Func 33 2)) = 0"
    "nat 0 < length (param_names [Field [IdentOf 17 ''format''], Field [IdentOf 32 ''args'']])"
    "ObjectOf (TypesInfo example_pass)
       (param_names [Field [IdentOf 17 ''format''], Field [IdentOf 32 ''args'']] ! nat 0) =
     Some (Var 6)"
    by (simp_all add: example_defs param_names_def)
  have c: "callfun_checkarg example_pass (fmt_Sprintf 60) = Inr 0" "nat 0 < length ?args"
    "?args ! nat 0 = Ident (IdentOf 72 ''format'')"
    "ObjectOf (TypesInfo example_pass) (IdentOf 72 ''format'') = Some (Var 6)"
    by (simp_all add: example_defs)
  have p1: "preorder \<lparr>SuppressNoArgs = False\<rparr> example_pass (?decl # []) ({}, []) =
              Inr ({Var 6}, [])"
    by (simp add: example_defs nthName_def)
  have p2: "preorder \<lparr>SuppressNoArgs = False\<rparr> example_pass
              (?decl # [AssignStmtN [name_at 50 ''format'']]) ({}, []) = Inr ({}, [])"
    by (simp add: example_defs nthName_def)
  have b1: "list_all (\<lambda>n. \<not> is_FuncDecl n) []"
    and b2: "list_all (\<lambda>n. \<not> is_FuncDecl n) [AssignStmtN [name_at 50 ''format'']]"
    by simp_all
  have s: "\<not> suppressed \<lparr>SuppressNoArgs = False\<rparr> ?args 0"
    by (simp add: suppressed_def)
  have a2: "list_ex (assigns (TypesInfo example_pass) (Var 6)) [AssignStmtN [name_at 50 ''format'']]"
    by (simp add: example_defs)
  from passthrough_exemption[OF f(1) f(2) _ f(3) f(4) b1 p1 c(1) _ c(2) c(3) c(4)]
    passthrough_exemption[OF f(1) f(2) _ f(3) f(4) b2 p2 c(1) _ c(2) c(3) c(4)]
    p1 p2 s a2
  show ?thesis by simp
qed

text \<open>
  The claim as stated promises the diagnostic after a reassignment whatever the options
  are. With \<open>SuppressNoArgs\<close> set, the wrapper that assigns to \<open>format\<close> before
  \<open>fmt.Sprintf(format, args...)\<close> gets no diagnostic, since the inner call passes \<open>args\<close>.
\<close>

theorem reassigned_suppressed_counterexample:
  "run \<lparr>SuppressNoArgs = True\<rparr> example_pass
     [FuncDeclN (IdentOf 5 ''passthrough'') [Field [IdentOf 17 ''format''], Field [IdentOf 32 ''args'']],
      AssignStmtN [name_at 50 ''format''],
      CallExprN (fmt_Sprintf 60) [name_at 72 ''format'', name_at 80 ''args'']] = Inr []"
  by (simp add: run_def example_defs nthName_def)


section \<open>Wrappers without a named format parameter\<close>

text \<open>
  C10: a function declaration classified as format-consuming at index \<open>i\<close> that has no
  parameter name at position \<open>i\<close> (the parameters are unnamed, or \<open>i\<close> is beyond the
  declared names) creates no registry entry: the visit of the declaration leaves the
  registry and the diagnostics as they were, and the body adds no entry. So a variable
  that was not registered before stays unregistered, and an inner format-consuming call
  that has it as a bare identifier for format argument is reported like any other
  variable: with the diagnostic of a variable, under the SuppressNoArgs test every call
  is under.
\<close>

theorem unnamed_format_parameter:
  assumes "ObjectOf (TypesInfo ps) name = Some fobj"
    and "fmtarg (printers ps) (Some fobj) = i" and "0 \<le> i"
    and "length (param_names params) \<le> nat i"
    and "list_all (\<lambda>n. \<not> is_FuncDecl n) body"
    and "preorder v ps (FuncDeclN name params # body) (passthru, reports) = Inr (P', r')"
    and "Var w \<notin> passthru"
    and "callfun_checkarg ps callfun = Inr j" and "0 \<le> j" and "nat j < length args"
    and "args ! nat j = Ident a" and "ObjectOf (TypesInfo ps) a = Some (Var w)"
  shows "visit v ps (FuncDeclN name params) (passthru, reports) = Inr (passthru, reports) \<and>
         P' \<subseteq> passthru \<and>
         visit v ps (CallExprN callfun args) (P', r') =
           Inr (P', if suppressed v args j then r'
                    else r' @ [variable_report ps callfun a (Var w)])"
proof -
  from assms(1-4) have decl:
    "visit v ps (FuncDeclN name params) (passthru, reports) = Inr (passthru, reports)"
    by (simp add: nthName_eq)
  with assms(6) have body: "preorder v ps body (passthru, reports) = Inr (P', r')"
    by simp
  from preorder_no_decl[OF body assms(5)] have sub: "P' \<subseteq> passthru" .
  with assms(7) have "Var w \<notin> P'" by blast
  with visit_call_ident[OF assms(8-12), of v P' r'] decl sub show ?thesis by simp
qed

theorem unnamed_format_parameter_witness:
  "visit \<lparr>SuppressNoArgs = False\<rparr> example_pass
     (FuncDeclN (IdentOf 5 ''passthrough'') [Field [], Field []]) ({}, []) = Inr ({}, []) \<and>
   visit \<lparr>SuppressNoArgs = False\<rparr> example_pass
     (CallExprN (fmt_Sprintf 60) [name_at 72 ''format'', name_at 80 ''args'']) ({}, []) =
     Inr ({}, [variable_report example_pass (fmt_Sprintf 60) (IdentOf 72 ''format'') (Var 6)])"
proof -
  let ?args = "[name_at 72 ''format'', name_at 80 ''args'']"
  have f: "ObjectOf (TypesInfo example_pass) (IdentOf 5 ''passthrough'') = Some (Func 33 2)"
    "fmtarg (printers example_pass) (Some (Func 33 2)) = 0"
    "length (param_names [Field [], Field []]) \<le> nat 0"
    by (simp_all add: example_defs param_names_def)
  have c: "callfun_checkarg example_pass (fmt_Sprintf 60) = Inr 0" "nat 0 < length ?args"
    "?args ! nat 0 = Ident (IdentOf 72 ''format'')"
    "ObjectOf (TypesInfo example_pass) (IdentOf 72 ''format'') = Some (Var 6)"
    by (simp_all add: example_defs)
  have p: "preorder \<lparr>SuppressNoArgs = False\<rparr> example_pass
             (FuncDeclN (IdentOf 5 ''passthrough'') [Field [], Field []] # []) ({}, []) =
           Inr ({}, [])"
    by (simp add: example_defs nthName_def)
  have b: "list_all (\<lambda>n. \<not> is_FuncDecl n) []" by simp
  have s: "\<not> suppressed \<lparr>SuppressNoArgs = False\<rparr> ?args 0"
    by (simp add: suppressed_def)
  from unnamed_format_parameter[OF f(1) f(2) _ f(3) b p _ c(1) _ c(2) c(3) c(4)] s
  show ?thesis by simp
qed

section \<open>The message of a general expression\<close>

text \<open>
  C9: a call whose format argument is not a bare identifier and is judged non-constant,
  and that the SuppressNoArgs test lets through, gets one diagnostic. If the culprit map
  is one node whose text is shorter than 32 bytes, the message is
  \<^verbatim>\<open>variable `<culprit text>` used for <function> format parameter\<close>; if it is not a
  single node, or the single node's text has 32 bytes or more, the message is
  \<^verbatim>\<open>non-constant expression used for <function> format parameter\<close>. In both cases
  the related notes are \<^verbatim>\<open>Non-constant: <culprit text>\<close> at each culprit, and nothing else.
  The function is printed from the call's \<^verbatim>\<open>Fun\<close> expression.
\<close>

theorem general_expression_message:
  assumes "callfun_checkarg ps callfun = Inr i" and "0 \<le> i" and "nat i < length args"
    and "\<not> suppressed v args i"
    and "args ! nat i = arg" and "\<forall>idn. arg \<noteq> Ident idn"
    and "constlit (TypesInfo ps) arg {} = Inr (False, bad)"
  shows "\<exists>d. visit v ps (CallExprN callfun args) (passthru, reports) =
                Inr (passthru, reports @ [d]) \<and>
           (\<forall>x. bad = {x} \<and> length (pp ps x) < 32 \<longrightarrow>
              Message d = ''variable `'' @ pp ps x @ ''` used for '' @ pp ps callfun
                          @ '' format parameter'') \<and>
           ((\<forall>x. bad = {x} \<longrightarrow> 32 \<le> length (pp ps x)) \<longrightarrow>
              Message d = ''non-constant expression used for '' @ pp ps callfun
                          @ '' format parameter'') \<and>
           Related d = (\<lambda>x. RelatedInformation (NodePos x) (''Non-constant: '' @ pp ps x)) ` bad"
proof -
  let ?d = "\<lparr>Pos = NodePos arg,
             Message = culprit_msg ps bad @ '' used for '' @ pp ps callfun
                       @ '' format parameter'',
             Related = (\<lambda>x. RelatedInformation (NodePos x) (''Non-constant: '' @ pp ps x))
                         ` bad\<rparr>"
  from checkformat_general[OF assms(6), of ps callfun passthru] assms(7)
  have "checkformat ps callfun arg passthru = Inr [?d]" by simp
  with assms(1-5)
  have "visit v ps (CallExprN callfun args) (passthru, reports) = Inr (passthru, reports @ [?d])"
    by (auto simp: suppressed_def)
  moreover have "\<forall>x. bad = {x} \<and> length (pp ps x) < 32 \<longrightarrow>
      Message ?d = ''variable `'' @ pp ps x @ ''` used for '' @ pp ps callfun
                   @ '' format parameter''"
    by (auto simp: culprit_msg_single)
  moreover have "(\<forall>x. bad = {x} \<longrightarrow> 32 \<le> length (pp ps x)) \<longrightarrow>
      Message ?d = ''non-constant expression used for '' @ pp ps callfun
                   @ '' format parameter''"
    by (auto simp: culprit_msg_other)
  moreover have "Related ?d =
      (\<lambda>x. RelatedInformation (NodePos x) (''Non-constant: '' @ pp ps x)) ` bad"
    by simp
  ultimately show ?thesis by blast
qed

theorem general_expression_message_witness:
  "(\<exists>d. visit \<lparr>SuppressNoArgs = False\<rparr> example_pass
      (CallExprN (fmt_Sprintf 10) [BinaryExpr (name_at 22 ''v1'') ''+'' (name_at 27 ''c1'')])
      ({}, []) = Inr ({}, [] @ [d]) \<and>
      Message d = ''variable `v1` used for fmt.Sprintf format parameter'' \<and>
      Related d = {RelatedInformation (NodePos (name_at 22 ''v1'')) ''Non-constant: v1''}) \<and>
   (\<exists>d. visit \<lparr>SuppressNoArgs = False\<rparr> example_pass
      (CallExprN (fmt_Sprintf 10)
         [ParenExpr (BinaryExpr (name_at 23 ''v1'') ''+'' (name_at 28 ''c1''))])
      ({}, []) = Inr ({}, [] @ [d]) \<and>
      Message d = ''non-constant expression used for fmt.Sprintf format parameter'' \<and>
      Related d =
        {RelatedInformation (NodePos (name_at 23 ''v1'')) ''Non-constant: v1'',
         RelatedInformation
           (NodePos (ParenExpr (BinaryExpr (name_at 23 ''v1'') ''+'' (name_at 28 ''c1''))))
           ''Non-constant: (v1 + c1)''})"
proof -
  let ?e1 = "BinaryExpr (name_at 22 ''v1'') ''+'' (name_at 27 ''c1'')"
  let ?e2 = "ParenExpr (BinaryExpr (name_at 23 ''v1'') ''+'' (name_at 28 ''c1''))"
  have k: "callfun_checkarg example_pass (fmt_Sprintf 10) = Inr 0"
    by (simp add: example_defs)
  have s: "\<not> suppressed \<lparr>SuppressNoArgs = False\<rparr> [?e1] 0"
          "\<not> suppressed \<lparr>SuppressNoArgs = False\<rparr> [?e2] 0"
    by (simp_all add: suppressed_def)
  have n: "\<forall>idn. ?e1 \<noteq> Ident idn" "\<forall>idn. ?e2 \<noteq> Ident idn" by simp_all
  have c1: "constlit (TypesInfo example_pass) ?e1 {} = Inr (False, {name_at 22 ''v1''})"
    by (simp add: example_defs combine.simps)
  have c2: "constlit (TypesInfo example_pass) ?e2 {} = Inr (False, {name_at 23 ''v1'', ?e2})"
    by (simp add: example_defs combine.simps insert_commute)
  have ne: "\<forall>x. {name_at 23 ''v1'', ?e2} = {x} \<longrightarrow> 32 \<le> length (pp example_pass x)"
    by auto
  have pp: "pp example_pass (name_at 22 ''v1'') = ''v1''" "pp example_pass (name_at 23 ''v1'') = ''v1''"
    "pp example_pass ?e2 = ''(v1 + c1)''" "pp example_pass (fmt_Sprintf 10) = ''fmt.Sprintf''"
    by (simp_all add: example_pass_def)
  from general_expression_message[OF k _ _ s(1) _ n(1) c1, of "{}" "[]"]
  obtain d1 where d1: "visit \<lparr>SuppressNoArgs = False\<rparr> example_pass
      (CallExprN (fmt_Sprintf 10) [?e1]) ({}, []) = Inr ({}, [] @ [d1])"
    "Message d1 = ''variable `v1` used for fmt.Sprintf format parameter''"
    "Related d1 = {RelatedInformation (NodePos (name_at 22 ''v1'')) ''Non-constant: v1''}"
    using pp by auto
  from general_expression_message[OF k _ _ s(2) _ n(2) c2, of "{}" "[]"] ne
  obtain d2 where d2: "visit \<lparr>SuppressNoArgs = False\<rparr> example_pass
      (CallExprN (fmt_Sprintf 10) [?e2]) ({}, []) = Inr ({}, [] @ [d2])"
    "Message d2 = ''non-constant expression used for fmt.Sprintf format parameter''"
    "Related d2 = {RelatedInformation (NodePos (name_at 23 ''v1'')) ''Non-constant: v1'',
         RelatedInformation (NodePos ?e2) ''Non-constant: (v1 + c1)''}"
    using pp by auto
  from d1 d2 show ?thesis by blast
qed

section \<open>Panics\<close>

text \<open>
  C5 asks that no input makes the run panic. The run panics on a call that gets the
  format from a multi-valued call: in \<open>fmt.Fprintf(g())\<close>, with
  \<open>g\<close> returning a writer and a string, the format index is 1 and the call has one
  argument, so \<^verbatim>\<open>n.Args[checkarg]\<close> is out of range. It also panics on a member access
  with neither object nor selection (the nil selection in \<^verbatim>\<open>selobj\<close>) and on a format
  argument that is an identifier without object (the nil interface given to \<^verbatim>\<open>pt\<close>).
\<close>

theorem run_panics:
  "run \<lparr>SuppressNoArgs = False\<rparr> example_pass
     [CallExprN (SelectorExpr (name_at 10 ''fmt'') (IdentOf 14 ''Fprintf''))
        [CallExpr (name_at 22 ''g'') []]] = Inl IndexOutOfRange \<and>
   run \<lparr>SuppressNoArgs = False\<rparr> example_pass
     [CallExprN (fmt_Sprintf 10)
        [BinaryExpr (SelectorExpr (name_at 22 ''v1'') (IdentOf 25 ''unresolved'')) ''+''
           (name_at 38 ''c1'')]] = Inl NilDereference \<and>
   run \<lparr>SuppressNoArgs = False\<rparr> example_pass
     [CallExprN (fmt_Sprintf 10) [name_at 22 ''unresolved'']] = Inl NilDereference"
  by (simp add: run_def example_defs combine.simps)


end
